theory Spec2Isabelle
  imports Complex_Main "HOL-Library.Word" "HOL-Library.State_Monad"
begin

unbundle bit_operations_syntax

section \<open>Data model\<close>

text \<open>
  \<^verbatim>\<open>encoding.py\<close> works on one-dimensional \<^verbatim>\<open>torch.int32\<close> tensors: \<^verbatim>\<open>encode\<close> flattens its
  argument with \<^verbatim>\<open>reshape(-1)\<close> and reinterprets the float32 bits with
  \<^verbatim>\<open>view(torch.int32)\<close>. An element is a 32-bit two's complement integer: \<open>sint\<close> reads the
  value the tensor holds, \<open>uint\<close> the bit pattern. A float32 is kept as its bit pattern.
  The attributes \<^verbatim>\<open>m_bits\<close>, \<^verbatim>\<open>primary_m_bits\<close> and \<^verbatim>\<open>residual_m_bits\<close> are Python integers.
  A Python float is the real number it stands for, and every arithmetic operation on
  floats is the exact operation followed by \<open>round_binary64\<close>, the rounding of IEEE 754
  binary64 to the nearest representable value, a tie going to the even significand.
\<close>

type_synonym int32 = "32 word"
type_synonym float32 = "32 word"
type_synonym tensor = "int32 list"

datatype error = AssertionError | RuntimeError

record Encoding =
  aggression :: real
  m_bits :: int
  primary_m_bits :: int
  residual_m_bits :: int

section \<open>Python and tensor primitives\<close>

text \<open>Python's \<^verbatim>\<open>round(x)\<close> on a float: the nearest integer, a tie going to the even one.\<close>

definition py_round :: "real \<Rightarrow> int" where
  "py_round x =
     (let f = \<lfloor>x\<rfloor>; d = x - of_int f
      in if d < 1 / 2 then f
         else if 1 / 2 < d then f + 1
         else if even f then f else f + 1)"

text \<open>
  Rounding to binary64: 53 significant bits, the exponent of the leading bit not below
  -1022 (below it the spacing stays \<open>2 ^ -1074\<close>, the subnormal numbers). Overflow to
  infinity is left out: the class rounds values between 0 and 23 only.
\<close>

definition round_binary64 :: "real \<Rightarrow> real" where
  "round_binary64 x =
     (if x = 0 then 0
      else let e = max \<lfloor>log 2 \<bar>x\<bar>\<rfloor> (- 1022); q = 2 powi (e - 52)
           in of_int (py_round (x / q)) * q)"

text \<open>
  Tensor with Python scalar: the scalar is taken at the tensor's type and the operation is
  applied to each element. \<^verbatim>\<open>>>\<close> on a signed tensor is the arithmetic shift, \<^verbatim>\<open><<\<close>
  drops the bits shifted out. The shift counts of the class are between 0 and 31.
\<close>

definition rshift :: "tensor \<Rightarrow> int \<Rightarrow> tensor" where
  "rshift t n = map (signed_drop_bit (nat n)) t"

definition lshift :: "tensor \<Rightarrow> int \<Rightarrow> tensor" where
  "lshift t n = map (push_bit (nat n)) t"

definition and_scalar :: "tensor \<Rightarrow> int \<Rightarrow> tensor" where
  "and_scalar t k = map (\<lambda>x. x AND word_of_int k) t"

text \<open>
  Tensor with tensor: one-dimensional shapes are compatible when the sizes are equal or
  one of them is 1, and the tensor of size 1 is then broadcast; any other pair of sizes
  raises \<^verbatim>\<open>RuntimeError\<close>.
\<close>

definition tensor_or :: "tensor \<Rightarrow> tensor \<Rightarrow> error + tensor" where
  "tensor_or a b =
     (if length a = length b then Inr (map2 (OR) a b)
      else if length b = 1 then Inr (map (\<lambda>x. x OR hd b) a)
      else if length a = 1 then Inr (map (\<lambda>y. hd a OR y) b)
      else Inl RuntimeError)"

definition bind_err :: "error + 'a \<Rightarrow> ('a \<Rightarrow> error + 'b) \<Rightarrow> error + 'b" where
  "bind_err r f = (case r of Inl e \<Rightarrow> Inl e | Inr v \<Rightarrow> f v)"

text \<open>\<^verbatim>\<open>view\<close> reinterprets the bits; \<^verbatim>\<open>.to(torch.int32)\<close> on an int32 tensor changes nothing.\<close>

definition view_int32 :: "float32 list \<Rightarrow> tensor" where
  "view_int32 t = t"

definition view_float32 :: "tensor \<Rightarrow> float32 list" where
  "view_float32 t = t"

definition to_int32 :: "tensor \<Rightarrow> tensor" where
  "to_int32 t = t"

section \<open>The class \<^verbatim>\<open>Encoding\<close>\<close>

text \<open>
  \<^verbatim>\<open>__init__\<close>; the argument is \<open>None\<close> when the caller leaves \<^verbatim>\<open>aggression\<close> out. Line 45 has
  two float operations, the subtraction \<^verbatim>\<open>1 - aggression\<close> and the product with
  \<^verbatim>\<open>self.m_bits\<close> (the integer 23, exact as a float), each rounded to binary64.
\<close>

definition init :: "real option \<Rightarrow> error + Encoding" where
  "init arg =
     (let a = (case arg of None \<Rightarrow> 1 / 2 | Some v \<Rightarrow> v)
      in if 0 \<le> a \<and> a \<le> 1
         then let m = 23; p = py_round (round_binary64 (round_binary64 (1 - a) * of_int m))
              in Inr \<lparr>aggression = a, m_bits = m, primary_m_bits = p, residual_m_bits = m - p\<rparr>
         else Inl AssertionError)"

definition encode :: "Encoding \<Rightarrow> float32 list \<Rightarrow> error + (tensor \<times> tensor)" where
  "encode self tensor_fp32 =
     (let raw = view_int32 tensor_fp32;
          sign = and_scalar (rshift raw 31) 0x1;
          exponent = and_scalar (rshift raw 23) 0xFF;
          mantissa = and_scalar raw 0x7FFFFF;
          mantissa_primary = rshift mantissa (residual_m_bits self);
          mantissa_residual = and_scalar mantissa (push_bit (nat (residual_m_bits self)) 1 - 1)
      in bind_err (tensor_or (lshift sign (8 + primary_m_bits self))
                             (lshift exponent (primary_m_bits self)))
           (\<lambda>hi. bind_err (tensor_or hi mantissa_primary)
              (\<lambda>primary. Inr (primary, mantissa_residual))))"

definition decode :: "Encoding \<Rightarrow> tensor \<Rightarrow> tensor \<Rightarrow> error + float32 list" where
  "decode self primary_stream residual_stream =
     (let primary = to_int32 primary_stream;
          residual = to_int32 residual_stream;
          mantissa_primary = and_scalar primary (push_bit (nat (primary_m_bits self)) 1 - 1);
          exponent = and_scalar (rshift primary (primary_m_bits self)) 0xFF;
          sign = and_scalar (rshift primary (8 + primary_m_bits self)) 0x1
      in bind_err (tensor_or (lshift mantissa_primary (residual_m_bits self)) residual)
           (\<lambda>mantissa. bind_err (tensor_or (lshift sign 31) (lshift exponent 23))
              (\<lambda>hi. bind_err (tensor_or hi mantissa)
                 (\<lambda>raw. Inr (view_float32 raw)))))"

definition decode_low :: "Encoding \<Rightarrow> tensor \<Rightarrow> error + float32 list" where
  "decode_low self primary_stream =
     (let primary = to_int32 primary_stream;
          mantissa_primary = and_scalar primary (push_bit (nat (primary_m_bits self)) 1 - 1);
          exponent = and_scalar (rshift primary (primary_m_bits self)) 0xFF;
          sign = and_scalar (rshift primary (8 + primary_m_bits self)) 0x1;
          mantissa = lshift mantissa_primary (residual_m_bits self)
      in bind_err (tensor_or (lshift sign 31) (lshift exponent 23))
           (\<lambda>hi. bind_err (tensor_or hi mantissa)
              (\<lambda>raw. Inr (view_float32 raw))))"

section \<open>What the tensor operations do to one element\<close>

text \<open>
  The methods above are maps over the elements. These functions name the expression each
  method computes for one element, with \<open>p\<close> and \<open>r\<close> the two attributes as naturals; the
  lemmas \<open>encode_elems\<close>, \<open>decode_elems\<close> and \<open>decode_low_elems\<close> prove that the methods
  are these maps.
\<close>

definition enc_primary :: "nat \<Rightarrow> nat \<Rightarrow> int32 \<Rightarrow> int32" where
  "enc_primary p r x =
     (push_bit (8 + p) (signed_drop_bit 31 x AND 1) OR push_bit p (signed_drop_bit 23 x AND 0xFF))
       OR signed_drop_bit r (x AND 0x7FFFFF)"

definition enc_residual :: "nat \<Rightarrow> int32 \<Rightarrow> int32" where
  "enc_residual r x = (x AND 0x7FFFFF) AND mask r"

definition dec_hi :: "nat \<Rightarrow> int32 \<Rightarrow> int32" where
  "dec_hi p y = push_bit 31 (signed_drop_bit (8 + p) y AND 1) OR push_bit 23 (signed_drop_bit p y AND 0xFF)"

definition dec_man :: "nat \<Rightarrow> nat \<Rightarrow> int32 \<Rightarrow> int32" where
  "dec_man p r y = push_bit r (y AND mask p)"

definition dec_elem :: "nat \<Rightarrow> nat \<Rightarrow> int32 \<Rightarrow> int32 \<Rightarrow> int32" where
  "dec_elem p r y z = dec_hi p y OR (dec_man p r y OR z)"

definition dec_low_elem :: "nat \<Rightarrow> nat \<Rightarrow> int32 \<Rightarrow> int32" where
  "dec_low_elem p r y = dec_hi p y OR dec_man p r y"

section \<open>Method calls on an instance\<close>

text \<open>
  The three methods once more, as state transformers on the instance they are called on:
  a method reads an attribute of \<^verbatim>\<open>self\<close> with \<open>attr\<close>, and a write would be an update of
  the state. The bodies follow the source statement by statement. A call returns the
  result of the method, a raised error included, and the instance as the method leaves it.
\<close>

definition attr :: "(Encoding \<Rightarrow> 'a) \<Rightarrow> (Encoding, 'a) state" where
  "attr field = State_Monad.bind State_Monad.get (\<lambda>self. State_Monad.return (field self))"

definition encode_call :: "float32 list \<Rightarrow> (Encoding, error + (tensor \<times> tensor)) state" where
  "encode_call tensor_fp32 = do {
     let raw = view_int32 tensor_fp32;
     let sign = and_scalar (rshift raw 31) 0x1;
     let exponent = and_scalar (rshift raw 23) 0xFF;
     let mantissa = and_scalar raw 0x7FFFFF;
     r \<leftarrow> attr residual_m_bits;
     let mantissa_primary = rshift mantissa r;
     r' \<leftarrow> attr residual_m_bits;
     let mantissa_residual = and_scalar mantissa (push_bit (nat r') 1 - 1);
     p \<leftarrow> attr primary_m_bits;
     p' \<leftarrow> attr primary_m_bits;
     State_Monad.return
       (bind_err (tensor_or (lshift sign (8 + p)) (lshift exponent p'))
          (\<lambda>hi. bind_err (tensor_or hi mantissa_primary)
             (\<lambda>primary. Inr (primary, mantissa_residual))))
   }"

definition decode_call :: "tensor \<Rightarrow> tensor \<Rightarrow> (Encoding, error + float32 list) state" where
  "decode_call primary_stream residual_stream = do {
     let primary = to_int32 primary_stream;
     let residual = to_int32 residual_stream;
     p \<leftarrow> attr primary_m_bits;
     let mantissa_primary = and_scalar primary (push_bit (nat p) 1 - 1);
     p' \<leftarrow> attr primary_m_bits;
     let exponent = and_scalar (rshift primary p') 0xFF;
     p'' \<leftarrow> attr primary_m_bits;
     let sign = and_scalar (rshift primary (8 + p'')) 0x1;
     r \<leftarrow> attr residual_m_bits;
     State_Monad.return
       (bind_err (tensor_or (lshift mantissa_primary r) residual)
          (\<lambda>mantissa. bind_err (tensor_or (lshift sign 31) (lshift exponent 23))
             (\<lambda>hi. bind_err (tensor_or hi mantissa)
                (\<lambda>raw. Inr (view_float32 raw)))))
   }"

definition decode_low_call :: "tensor \<Rightarrow> (Encoding, error + float32 list) state" where
  "decode_low_call primary_stream = do {
     let primary = to_int32 primary_stream;
     p \<leftarrow> attr primary_m_bits;
     let mantissa_primary = and_scalar primary (push_bit (nat p) 1 - 1);
     p' \<leftarrow> attr primary_m_bits;
     let exponent = and_scalar (rshift primary p') 0xFF;
     p'' \<leftarrow> attr primary_m_bits;
     let sign = and_scalar (rshift primary (8 + p'')) 0x1;
     r \<leftarrow> attr residual_m_bits;
     let mantissa = lshift mantissa_primary r;
     State_Monad.return
       (bind_err (tensor_or (lshift sign 31) (lshift exponent 23))
          (\<lambda>hi. bind_err (tensor_or hi mantissa)
             (\<lambda>raw. Inr (view_float32 raw))))
   }"

datatype call = Encode "float32 list" | Decode tensor tensor | Decode_low tensor

datatype outcome = Streams "error + (tensor \<times> tensor)" | Floats "error + float32 list"

fun invoke :: "call \<Rightarrow> (Encoding, outcome) state" where
  "invoke (Encode tensor_fp32) =
     State_Monad.bind (encode_call tensor_fp32) (\<lambda>res. State_Monad.return (Streams res))"
| "invoke (Decode primary_stream residual_stream) =
     State_Monad.bind (decode_call primary_stream residual_stream)
       (\<lambda>res. State_Monad.return (Floats res))"
| "invoke (Decode_low primary_stream) =
     State_Monad.bind (decode_low_call primary_stream) (\<lambda>res. State_Monad.return (Floats res))"

text \<open>The instance after a sequence of calls, one after the other.\<close>

fun run :: "Encoding \<Rightarrow> call list \<Rightarrow> Encoding" where
  "run self [] = self"
| "run self (c # cs) = run (snd (run_state (invoke c) self)) cs"

section \<open>Rounding\<close>

lemma py_round_half_23: "py_round (23 / 2) = 12"
proof -
  have f: "\<lfloor>23 / 2 :: real\<rfloor> = 11" by linarith
  show ?thesis unfolding py_round_def Let_def f by simp
qed

lemma py_round_half_21: "py_round (21 / 2) = 10"
proof -
  have f: "\<lfloor>21 / 2 :: real\<rfloor> = 10" by linarith
  show ?thesis unfolding py_round_def Let_def f by simp
qed

lemma py_round_of_int: "py_round (of_int n) = n"
  by (simp add: py_round_def)

lemma py_round_bounds:
  assumes "0 \<le> x" and "x \<le> of_int n"
  shows "0 \<le> py_round x \<and> py_round x \<le> n"
proof -
  have f0: "0 \<le> \<lfloor>x\<rfloor>" using assms(1) by simp
  have fn: "\<lfloor>x\<rfloor> \<le> n" using assms(2) by (simp add: floor_le_iff)
  show ?thesis
  proof (cases "\<lfloor>x\<rfloor> = n")
    case True
    then have "x - of_int \<lfloor>x\<rfloor> \<le> 0" using assms(2) by simp
    then have "py_round x = \<lfloor>x\<rfloor>" by (simp add: py_round_def Let_def)
    then show ?thesis using f0 fn by simp
  next
    case False
    then have "\<lfloor>x\<rfloor> + 1 \<le> n" using fn by simp
    then show ?thesis using f0 fn by (auto simp add: py_round_def Let_def)
  qed
qed

lemma floor_log2_eq:
  assumes "2 powi e \<le> x" and "x < 2 powi (e + 1)"
  shows "\<lfloor>log 2 x\<rfloor> = e"
proof -
  have "0 < (2::real) powi e" by simp
  then have x: "0 < x" using assms(1) by linarith
  have a: "(2::real) powr of_int e = 2 powi e"
    by (rule powr_real_of_int') simp_all
  have "(2::real) powr of_int (e + 1) = 2 powi (e + 1)"
    by (rule powr_real_of_int') simp_all
  then have b: "(2::real) powr (of_int e + 1) = 2 powi (e + 1)" by simp
  have "2 powr of_int e \<le> x \<and> x < 2 powr (of_int e + 1)"
    unfolding a b using assms by simp
  then show ?thesis using floor_log_eq_powr_iff [OF x, of 2 e] by simp
qed

lemma round_binary64_normal:
  assumes "2 powi e \<le> x" and "x < 2 powi (e + 1)" and "- 1022 \<le> e"
  shows "round_binary64 x = of_int (py_round (x / 2 powi (e - 52))) * 2 powi (e - 52)"
proof -
  have "0 < (2::real) powi e" by simp
  then have x: "0 < x" using assms(1) by linarith
  then have ax: "\<bar>x\<bar> = x" by simp
  have f: "\<lfloor>log 2 \<bar>x\<bar>\<rfloor> = e" unfolding ax using assms(1,2) by (rule floor_log2_eq)
  have m: "max e (- 1022) = e" using assms(3) by simp
  have "x \<noteq> 0" using x by simp
  then show ?thesis unfolding round_binary64_def Let_def f m by simp
qed

lemma round_binary64_exact:
  assumes "2 powi e \<le> x" and "x < 2 powi (e + 1)" and "- 1022 \<le> e"
    and "x / 2 powi (e - 52) = of_int n"
  shows "round_binary64 x = x"
proof -
  have q: "(2::real) powi (e - 52) \<noteq> 0" by simp
  have "round_binary64 x = of_int n * 2 powi (e - 52)"
    unfolding round_binary64_normal [OF assms(1-3)] assms(4) py_round_of_int ..
  also have "\<dots> = x / 2 powi (e - 52) * 2 powi (e - 52)" unfolding assms(4) ..
  also have "\<dots> = x"
  proof -
    have "y / q * q = y" if "q \<noteq> 0" for y q :: real using that by simp
    then show ?thesis using q by blast
  qed
  finally show ?thesis .
qed

lemma exponent_le_52:
  assumes "0 < x" and "x \<le> 2 ^ 52"
  shows "max \<lfloor>log 2 \<bar>x\<bar>\<rfloor> (- 1022) \<le> 52"
proof -
  have "(2::real) powr 53 = 2 ^ 53" by (rule powr_numeral) simp
  then have "x < 2 powr 53" using assms(2) by simp
  then have lt: "x < 2 powr 53" .
  have "log 2 x < 53 \<longleftrightarrow> x < 2 powr 53"
    by (rule log_less_iff) (use assms(1) in simp_all)
  then have "log 2 x < 53" using lt by blast
  then have "\<lfloor>log 2 x\<rfloor> \<le> 52" by (simp add: floor_le_iff)
  then show ?thesis using assms(1) by simp
qed

lemma round_binary64_bounds:
  assumes "0 \<le> x" and "x \<le> of_int n" and "n \<le> 2 ^ 52"
  shows "0 \<le> round_binary64 x \<and> round_binary64 x \<le> of_int n"
proof (cases "x = 0")
  case True
  then show ?thesis using assms(2) by (simp add: round_binary64_def)
next
  case False
  then have x: "0 < x" using assms(1) by simp
  define e where "e = max \<lfloor>log 2 \<bar>x\<bar>\<rfloor> (- 1022)"
  define k where "k = nat (52 - e)"
  define t where "t = py_round (x * 2 ^ k)"
  have "(of_int n :: real) \<le> of_int (2 ^ 52)" using assms(3) by (simp only: of_int_le_iff)
  then have "x \<le> 2 ^ 52" using assms(2) by simp
  then have e: "e \<le> 52" unfolding e_def using x by (intro exponent_le_52)
  have "2 powi (e - 52) = inverse ((2::real) powi (52 - e))"
    using power_int_minus [of "2::real" "52 - e"] by simp
  also have "(2::real) powi (52 - e) = 2 ^ k"
    unfolding k_def using e by (intro power_int_nonneg_exp) simp
  finally have q: "(2::real) powi (e - 52) = inverse (2 ^ k)" .
  have r: "round_binary64 x = of_int t * inverse (2 ^ k)"
    using False unfolding round_binary64_def Let_def e_def [symmetric] q t_def
    by (simp add: divide_inverse)
  have "x * 2 ^ k \<le> of_int n * 2 ^ k" using assms(2) by (intro mult_right_mono) simp_all
  then have up: "x * 2 ^ k \<le> of_int (n * 2 ^ k)" by simp
  have lo: "0 \<le> x * 2 ^ k" using assms(1) by simp
  have b: "0 \<le> t \<and> t \<le> n * 2 ^ k"
    unfolding t_def using lo up by (rule py_round_bounds)
  have p: "0 < inverse ((2::real) ^ k)" by simp
  have "(of_int t :: real) \<le> of_int (n * 2 ^ k)" using b by (simp only: of_int_le_iff)
  then have "of_int t * inverse (2 ^ k) \<le> (of_int (n * 2 ^ k) :: real) * inverse (2 ^ k)"
    using p by (intro mult_right_mono) simp_all
  also have "(of_int (n * 2 ^ k) :: real) * inverse (2 ^ k) = of_int n" by simp
  finally have hi: "of_int t * inverse (2 ^ k) \<le> (of_int n :: real)" .
  have "(0::real) \<le> of_int t" using b by simp
  then have "0 \<le> (of_int t :: real) * inverse (2 ^ k)" using p by (intro mult_nonneg_nonneg) simp_all
  then show ?thesis unfolding r using hi by simp
qed

lemma round_binary64_0: "round_binary64 0 = 0"
  by (simp add: round_binary64_def)

lemma round_binary64_1: "round_binary64 1 = 1"
  by (rule round_binary64_exact [where e = 0 and n = "2 ^ 52"]) simp_all

lemma round_binary64_23: "round_binary64 23 = 23"
  by (rule round_binary64_exact [where e = 4 and n = "23 * 2 ^ 48"]) simp_all

lemma round_binary64_half: "round_binary64 (1 / 2) = 1 / 2"
  by (rule round_binary64_exact [where e = "- 1" and n = "2 ^ 52"]) simp_all

lemma round_binary64_half_23: "round_binary64 (23 / 2) = 23 / 2"
  by (rule round_binary64_exact [where e = 3 and n = "23 * 2 ^ 48"]) simp_all

text \<open>
  A float next to a tie: 0.5434782608695652 is the binary64 value a = 2447608493136139 / 2^52.
  The difference 1 - a = 2055991134234357 / 2^52 is exact; the product with 23 is
  47287796087390211 / 2^52, just above 10.5, and its binary64 rounding is 10.5 itself.
\<close>

lemma near_tie_difference:
  "round_binary64 (2055991134234357 / 4503599627370496)
     = 2055991134234357 / 4503599627370496"
  by (rule round_binary64_exact [where e = "- 2" and n = "2055991134234357 * 4"]) simp_all

lemma near_tie_product:
  "round_binary64 (47287796087390211 / 4503599627370496) = 21 / 2"
proof -
  have f: "\<lfloor>47287796087390211 / 8 :: real\<rfloor> = 5910974510923776" by linarith
  have r: "py_round (47287796087390211 / 8) = 5910974510923776"
    unfolding py_round_def Let_def f by simp
  have "round_binary64 (47287796087390211 / 4503599627370496)
          = of_int (py_round (47287796087390211 / 4503599627370496 / 2 powi (3 - 52)))
              * 2 powi (3 - 52)"
    by (rule round_binary64_normal) simp_all
  also have "47287796087390211 / 4503599627370496 / 2 powi (3 - 52)
               = (47287796087390211 / 8 :: real)" by simp
  finally show ?thesis unfolding r by simp
qed

text \<open>
  And one on the other side: 0.32608695652173914 is a = 2937130191763367 / 2^53, the
  difference 1 - a = 6070069062977625 / 2^53 is exact, the product with 23 lies just below
  15.5 and its binary64 rounding is 15.5.
\<close>

lemma near_tie_up_difference:
  "round_binary64 (6070069062977625 / 9007199254740992)
     = 6070069062977625 / 9007199254740992"
  by (rule round_binary64_exact [where e = "- 1" and n = "6070069062977625"]) simp_all

lemma near_tie_up_product:
  "round_binary64 (139611588448485375 / 9007199254740992) = 31 / 2"
proof -
  have f: "\<lfloor>139611588448485375 / 16 :: real\<rfloor> = 8725724278030335" by linarith
  have r: "py_round (139611588448485375 / 16) = 8725724278030336"
    unfolding py_round_def Let_def f by simp
  have "round_binary64 (139611588448485375 / 9007199254740992)
          = of_int (py_round (139611588448485375 / 9007199254740992 / 2 powi (3 - 52)))
              * 2 powi (3 - 52)"
    by (rule round_binary64_normal) simp_all
  also have "139611588448485375 / 9007199254740992 / 2 powi (3 - 52)
               = (139611588448485375 / 16 :: real)" by simp
  finally show ?thesis unfolding r by simp
qed

lemma py_round_half_31: "py_round (31 / 2) = 16"
proof -
  have f: "\<lfloor>31 / 2 :: real\<rfloor> = 15" by linarith
  show ?thesis unfolding py_round_def Let_def f by simp
qed

section \<open>Construction\<close>

lemma init_half:
  "init (Some (1 / 2)) =
     Inr \<lparr>aggression = 1 / 2, m_bits = 23, primary_m_bits = 12, residual_m_bits = 11\<rparr>"
  by (simp add: init_def round_binary64_half round_binary64_half_23 py_round_half_23)

lemma init_zero:
  "init (Some 0) = Inr \<lparr>aggression = 0, m_bits = 23, primary_m_bits = 23, residual_m_bits = 0\<rparr>"
  by (simp add: init_def round_binary64_1 round_binary64_23 py_round_of_int [of 23, simplified])

lemma init_one:
  "init (Some 1) = Inr \<lparr>aggression = 1, m_bits = 23, primary_m_bits = 0, residual_m_bits = 23\<rparr>"
  by (simp add: init_def round_binary64_0 py_round_of_int [of 0, simplified])

lemma init_near_tie:
  "init (Some (2447608493136139 / 4503599627370496)) =
     Inr \<lparr>aggression = 2447608493136139 / 4503599627370496, m_bits = 23,
          primary_m_bits = 10, residual_m_bits = 13\<rparr>"
  by (simp add: init_def near_tie_difference near_tie_product py_round_half_21)

lemma init_near_tie_up:
  "init (Some (2937130191763367 / 9007199254740992)) =
     Inr \<lparr>aggression = 2937130191763367 / 9007199254740992, m_bits = 23,
          primary_m_bits = 16, residual_m_bits = 7\<rparr>"
  by (simp add: init_def near_tie_up_difference near_tie_up_product py_round_half_31)

lemma init_split:
  assumes "init arg = Inr c"
  shows "\<exists>p r. primary_m_bits c = int p \<and> residual_m_bits c = int r \<and> p + r = 23"
proof -
  define a where "a = (case arg of None \<Rightarrow> 1 / 2 | Some v \<Rightarrow> (v::real))"
  define q where "q = py_round (round_binary64 (round_binary64 (1 - a) * 23))"
  have rng: "0 \<le> a \<and> a \<le> 1"
    using assms unfolding init_def a_def [symmetric] Let_def by (simp split: if_splits)
  have c: "c = \<lparr>aggression = a, m_bits = 23, primary_m_bits = q, residual_m_bits = 23 - q\<rparr>"
    using assms rng unfolding init_def a_def [symmetric] q_def Let_def by simp
  have "0 \<le> 1 - a" and "1 - a \<le> of_int 1" using rng by simp_all
  then have d: "0 \<le> round_binary64 (1 - a) \<and> round_binary64 (1 - a) \<le> of_int 1"
    by (rule round_binary64_bounds) simp
  then have "0 \<le> round_binary64 (1 - a) * 23" and "round_binary64 (1 - a) * 23 \<le> of_int 23"
    by simp_all
  then have "0 \<le> round_binary64 (round_binary64 (1 - a) * 23)
      \<and> round_binary64 (round_binary64 (1 - a) * 23) \<le> of_int 23"
    by (rule round_binary64_bounds) simp
  then have b: "0 \<le> q \<and> q \<le> 23"
    unfolding q_def using py_round_bounds by blast
  have pc: "primary_m_bits c = q" and rc: "residual_m_bits c = 23 - q"
    by (simp_all add: c)
  have "q = int (nat q)" using b by simp
  moreover have "23 - q = int (23 - nat q)" using b by arith
  moreover have "nat q + (23 - nat q) = 23" using b by arith
  ultimately show ?thesis unfolding pc rc by blast
qed

text \<open>
  C4. Constructing with aggression 0.5 gives 12 primary and 11 residual mantissa bits: the
  rounding of (1 - 0.5) * 23 = 11.5 resolves to 12.
\<close>

theorem C4_midpoint_rounding:
  "init (Some (1 / 2)) =
     Inr \<lparr>aggression = 1 / 2, m_bits = 23, primary_m_bits = 12, residual_m_bits = 11\<rparr>
   \<and> (1 - 1 / 2) * 23 = (23 / 2 :: real) \<and> py_round (23 / 2) = 12"
  using init_half py_round_half_23 by simp

text \<open>
  C9. Constructing with no argument uses aggression 0.5, so the default instance has 12
  primary and 11 residual mantissa bits.
\<close>

theorem C9_default_aggression:
  "init None = init (Some (1 / 2))
   \<and> init None =
       Inr \<lparr>aggression = 1 / 2, m_bits = 23, primary_m_bits = 12, residual_m_bits = 11\<rparr>"
proof -
  have "init None = init (Some (1 / 2))" by (simp add: init_def)
  then show ?thesis using init_half by simp
qed

text \<open>
  C3. Construction fails with \<^verbatim>\<open>AssertionError\<close> exactly for an aggression below 0 or above
  1, so in particular for -0.1 and 1.1; it returns an instance for 0.0 and for 1.0. No
  value outside the interval is clamped into it: no instance is returned at all.
\<close>

theorem C3_invalid_construction:
  "(init (Some a) = Inl AssertionError \<longleftrightarrow> a < 0 \<or> 1 < a)
   \<and> init (Some (- 1 / 10)) = Inl AssertionError
   \<and> init (Some (11 / 10)) = Inl AssertionError
   \<and> init (Some 0) =
       Inr \<lparr>aggression = 0, m_bits = 23, primary_m_bits = 23, residual_m_bits = 0\<rparr>
   \<and> init (Some 1) =
       Inr \<lparr>aggression = 1, m_bits = 23, primary_m_bits = 0, residual_m_bits = 23\<rparr>"
proof -
  have "init (Some a) = Inl AssertionError \<longleftrightarrow> a < 0 \<or> 1 < a"
    by (auto simp add: init_def Let_def)
  moreover have "init (Some (- 1 / 10)) = Inl AssertionError"
    and "init (Some (11 / 10)) = Inl AssertionError"
    by (simp_all add: init_def)
  ultimately show ?thesis using init_zero init_one by simp
qed

theorem C3_invalid_construction_witness:
  "init (Some (3 / 2)) = Inl AssertionError \<and> init (Some (- 2)) = Inl AssertionError"
  using C3_invalid_construction [of "3 / 2"] C3_invalid_construction [of "- 2"] by simp

section \<open>The methods leave the instance as it is\<close>

lemma run_attr: "run_state (attr field) self = (field self, self)"
  by (simp add: attr_def)

lemma encode_call_run: "run_state (encode_call t) self = (encode self t, self)"
  by (simp add: encode_call_def encode_def run_attr Let_def)

lemma decode_call_run: "run_state (decode_call ps rs) self = (decode self ps rs, self)"
  by (simp add: decode_call_def decode_def run_attr Let_def)

lemma decode_low_call_run: "run_state (decode_low_call ps) self = (decode_low self ps, self)"
  by (simp add: decode_low_call_def decode_low_def run_attr Let_def)

lemma invoke_self: "snd (run_state (invoke c) self) = self"
  by (cases c) (simp_all add: encode_call_run decode_call_run decode_low_call_run)

lemma run_self: "run c calls = c"
  by (induction calls) (simp_all add: invoke_self)

text \<open>
  C5. For every aggression in [0, 1] construction returns an instance whose two bit counts
  add up to 23 and lie between 0 and 23 each, and no sequence of method calls changes them.
\<close>

theorem C5_split_invariant:
  assumes "0 \<le> a" and "a \<le> 1"
  shows "\<exists>c. init (Some a) = Inr c
           \<and> primary_m_bits c + residual_m_bits c = 23
           \<and> 0 \<le> primary_m_bits c \<and> primary_m_bits c \<le> 23
           \<and> 0 \<le> residual_m_bits c \<and> residual_m_bits c \<le> 23
           \<and> (\<forall>calls. primary_m_bits (run c calls) = primary_m_bits c
                     \<and> residual_m_bits (run c calls) = residual_m_bits c)"
proof -
  obtain c where c: "init (Some a) = Inr c"
    using assms by (simp add: init_def Let_def)
  obtain p r where "primary_m_bits c = int p" and "residual_m_bits c = int r" and "p + r = 23"
    using init_split [OF c] by blast
  then show ?thesis using c by (simp add: run_self)
qed

theorem C5_split_invariant_witness:
  "\<exists>c. init (Some (2447608493136139 / 4503599627370496)) = Inr c
       \<and> primary_m_bits c = 10 \<and> residual_m_bits c = 13
       \<and> primary_m_bits (run c [Encode [0x3FC00000], Decode [1, 2] [3, 4, 5]]) = 10"
  using C5_split_invariant [of "2447608493136139 / 4503599627370496"] init_near_tie
  by (auto simp add: run_self)

section \<open>Bits of the fields\<close>

lemma m8: "(0xFF :: int32) = mask 8" by (simp add: mask_eq_exp_minus_1)

lemma m23: "(0x7FFFFF :: int32) = mask 23" by (simp add: mask_eq_exp_minus_1)

lemma py_mask: "(word_of_int (push_bit n 1 - 1) :: int32) = mask n"
  by (simp add: push_bit_eq_mult mask_eq_exp_minus_1)

lemma bit_sign: "bit (signed_drop_bit 31 x AND (1::int32)) n \<longleftrightarrow> n = 0 \<and> bit x 31"
  by (auto simp add: bit_and_iff bit_1_iff bit_signed_drop_bit_iff)

lemma bit_exponent: "bit (signed_drop_bit 23 x AND (0xFF::int32)) n \<longleftrightarrow> n < 8 \<and> bit x (23 + n)"
  unfolding m8 by (auto simp add: bit_and_iff bit_mask_iff bit_signed_drop_bit_iff)

lemma bit_mantissa_primary:
  "r \<le> 23 \<Longrightarrow> bit (signed_drop_bit r (x AND (0x7FFFFF::int32))) n \<longleftrightarrow> n + r < 23 \<and> bit x (r + n)"
  unfolding m23 by (auto simp add: bit_and_iff bit_mask_iff bit_signed_drop_bit_iff)

lemma bit_enc_primary:
  assumes "p + r = 23"
  shows "bit (enc_primary p r x) n \<longleftrightarrow> n < 9 + p \<and> bit x (n + r)"
proof -
  have r: "r \<le> 23" using assms by simp
  have e31: "8 + p + r = 31" using assms by simp
  have a: "bit (push_bit (8 + p) (signed_drop_bit 31 x AND 1)) n \<longleftrightarrow> n = 8 + p \<and> bit x (n + r)"
  proof (cases "n = 8 + p")
    case True
    have "bit x (n + r) = bit x 31" unfolding True e31 ..
    then show ?thesis unfolding bit_push_bit_iff bit_sign using assms True by simp
  next
    case False
    then show ?thesis unfolding bit_push_bit_iff bit_sign by auto
  qed
  have b: "bit (push_bit p (signed_drop_bit 23 x AND 0xFF)) n \<longleftrightarrow> p \<le> n \<and> n < 8 + p \<and> bit x (n + r)"
  proof (cases "p \<le> n")
    case True
    then obtain k where k: "n = p + k" using le_Suc_ex by blast
    have e: "p + k + r = 23 + k" using assms by simp
    show ?thesis unfolding bit_push_bit_iff bit_exponent k e using assms by auto
  next
    case False
    then show ?thesis unfolding bit_push_bit_iff by simp
  qed
  have c: "bit (signed_drop_bit r (x AND 0x7FFFFF)) n \<longleftrightarrow> n < p \<and> bit x (n + r)"
    unfolding bit_mantissa_primary [OF r] using assms by (auto simp: add.commute)
  show ?thesis
    unfolding enc_primary_def bit_or_iff a b c by (cases "n < p"; cases "n < 8 + p"; cases "n = 8 + p") auto
qed

lemma bit_enc_residual:
  "r \<le> 23 \<Longrightarrow> bit (enc_residual r x) n \<longleftrightarrow> n < r \<and> bit x n"
  unfolding enc_residual_def m23 by (auto simp add: bit_and_iff bit_mask_iff)

lemma bit_dec_sign:
  "p \<le> 23 \<Longrightarrow> bit (signed_drop_bit (8 + p) y AND (1::int32)) n \<longleftrightarrow> n = 0 \<and> bit y (8 + p)"
  by (auto simp add: bit_and_iff bit_1_iff bit_signed_drop_bit_iff)

lemma bit_dec_exponent:
  "p \<le> 23 \<Longrightarrow> bit (signed_drop_bit p y AND (0xFF::int32)) n \<longleftrightarrow> n < 8 \<and> bit y (p + n)"
  unfolding m8 by (auto simp add: bit_and_iff bit_mask_iff bit_signed_drop_bit_iff)

lemma bit_dec_hi:
  assumes "p + r = 23"
  shows "bit (dec_hi p y) n \<longleftrightarrow> 23 \<le> n \<and> n < 32 \<and> bit y (n - r)"
proof -
  have p: "p \<le> 23" using assms by simp
  have a: "bit (push_bit 31 (signed_drop_bit (8 + p) y AND 1)) n \<longleftrightarrow> n = 31 \<and> bit y (n - r)"
  proof (cases "n = 31")
    case True
    have "31 - r = 8 + p" using assms by simp
    then show ?thesis unfolding bit_push_bit_iff bit_dec_sign [OF p] True by simp
  next
    case False
    then show ?thesis unfolding bit_push_bit_iff bit_dec_sign [OF p] by auto
  qed
  have b: "bit (push_bit 23 (signed_drop_bit p y AND 0xFF)) n \<longleftrightarrow> 23 \<le> n \<and> n < 31 \<and> bit y (n - r)"
  proof (cases "23 \<le> n")
    case True
    then obtain k where k: "n = 23 + k" using le_Suc_ex by blast
    have e: "23 + k - r = p + k" using assms by simp
    show ?thesis unfolding bit_push_bit_iff bit_dec_exponent [OF p] k e by auto
  next
    case False
    then show ?thesis unfolding bit_push_bit_iff by simp
  qed
  show ?thesis
    unfolding dec_hi_def bit_or_iff a b by (cases "n = 31"; cases "n < 31") auto
qed

lemma bit_dec_mantissa:
  assumes "p + r = 23"
  shows "bit (dec_man p r y) n \<longleftrightarrow> r \<le> n \<and> n < 23 \<and> bit y (n - r)"
proof (cases "r \<le> n")
  case True
  then obtain k where k: "n = r + k" using le_Suc_ex by blast
  have e: "r + k - r = k" by simp
  have l: "r + k < 23 \<longleftrightarrow> k < p" using assms by auto
  show ?thesis unfolding dec_man_def bit_push_bit_iff bit_and_iff bit_mask_iff k e l using assms by auto
next
  case False
  then show ?thesis unfolding dec_man_def bit_push_bit_iff by simp
qed

lemma bit_dec_low_elem:
  assumes "p + r = 23"
  shows "bit (dec_low_elem p r y) n \<longleftrightarrow> r \<le> n \<and> n < 32 \<and> bit y (n - r)"
  unfolding dec_low_elem_def bit_or_iff bit_dec_hi [OF assms] bit_dec_mantissa [OF assms]
  using assms by (cases "n < 23") auto

lemma dec_elem_low: "dec_elem p r y z = dec_low_elem p r y OR z"
  unfolding dec_elem_def dec_low_elem_def by (simp add: ac_simps)

lemma roundtrip_elem:
  assumes "p + r = 23"
  shows "dec_elem p r (enc_primary p r x) (enc_residual r x) = x"
proof (rule bit_word_eqI)
  fix n assume n: "n < LENGTH(32)"
  have r: "r \<le> 23" using assms by simp
  show "bit (dec_elem p r (enc_primary p r x) (enc_residual r x)) n \<longleftrightarrow> bit x n"
  proof (cases "r \<le> n")
    case True
    then have e: "n - r + r = n" by simp
    have "n - r < 9 + p" using n assms True by simp
    then show ?thesis
      unfolding dec_elem_low bit_or_iff bit_dec_low_elem [OF assms] bit_enc_primary [OF assms]
        bit_enc_residual [OF r] e using True n by auto
  next
    case False
    then show ?thesis
      unfolding dec_elem_low bit_or_iff bit_dec_low_elem [OF assms] bit_enc_residual [OF r]
      by auto
  qed
qed

section \<open>The methods as maps over the elements\<close>

lemma tensor_or_same: "length a = length b \<Longrightarrow> tensor_or a b = Inr (map2 (OR) a b)"
  by (simp add: tensor_or_def)

lemma map2_map_map2:
  "map2 h xs (map2 g xs ys) = map2 (\<lambda>x y. h x (g x y)) xs ys"
proof (induction xs arbitrary: ys)
  case Nil
  then show ?case by simp
next
  case (Cons x xs)
  then show ?case by (cases ys) simp_all
qed

lemma map2_map_left: "map2 h (map f xs) ys = map2 (\<lambda>x y. h (f x) y) xs ys"
proof (induction xs arbitrary: ys)
  case Nil
  then show ?case by simp
next
  case (Cons x xs)
  then show ?case by (cases ys) simp_all
qed

lemma encode_elems:
  assumes "primary_m_bits c = int p" and "residual_m_bits c = int r"
  shows "encode c xs = Inr (map (enc_primary p r) xs, map (enc_residual r) xs)"
proof -
  have hi: "tensor_or (lshift (and_scalar (rshift (view_int32 xs) 31) 0x1) (8 + primary_m_bits c))
                      (lshift (and_scalar (rshift (view_int32 xs) 23) 0xFF) (primary_m_bits c))
            = Inr (map (\<lambda>x. push_bit (8 + p) (signed_drop_bit 31 x AND 1)
                              OR push_bit p (signed_drop_bit 23 x AND 0xFF)) xs)"
    unfolding assms lshift_def and_scalar_def rshift_def view_int32_def
    by (simp add: tensor_or_same map2_map_map o_def nat_add_distrib)
  show ?thesis
    unfolding encode_def Let_def hi bind_err_def sum.case
    unfolding assms and_scalar_def rshift_def view_int32_def py_mask nat_int
    by (simp add: tensor_or_same map2_map_map o_def enc_primary_def enc_residual_def)
qed

lemma decode_elems:
  assumes "primary_m_bits c = int p" and "residual_m_bits c = int r"
  shows "decode c ps rs =
           bind_err (tensor_or (map (dec_man p r) ps) rs)
             (\<lambda>mantissa. bind_err (tensor_or (map (dec_hi p) ps) mantissa) Inr)"
proof -
  have hi: "tensor_or (lshift (and_scalar (rshift (to_int32 ps) (8 + primary_m_bits c)) 0x1) 31)
                      (lshift (and_scalar (rshift (to_int32 ps) (primary_m_bits c)) 0xFF) 23)
            = Inr (map (dec_hi p) ps)"
    unfolding assms lshift_def and_scalar_def rshift_def to_int32_def
    by (simp add: tensor_or_same map2_map_map o_def nat_add_distrib dec_hi_def)
  have man: "lshift (and_scalar (to_int32 ps) (push_bit (nat (primary_m_bits c)) 1 - 1))
                    (residual_m_bits c) = map (dec_man p r) ps"
    unfolding assms lshift_def and_scalar_def to_int32_def py_mask nat_int
    by (simp add: o_def dec_man_def)
  show ?thesis
    unfolding decode_def Let_def hi man
    by (simp add: bind_err_def to_int32_def view_float32_def split: sum.splits)
qed

lemma decode_low_elems:
  assumes "primary_m_bits c = int p" and "residual_m_bits c = int r"
  shows "decode_low c ps = Inr (map (dec_low_elem p r) ps)"
proof -
  have hi: "tensor_or (lshift (and_scalar (rshift (to_int32 ps) (8 + primary_m_bits c)) 0x1) 31)
                      (lshift (and_scalar (rshift (to_int32 ps) (primary_m_bits c)) 0xFF) 23)
            = Inr (map (dec_hi p) ps)"
    unfolding assms lshift_def and_scalar_def rshift_def to_int32_def
    by (simp add: tensor_or_same map2_map_map o_def nat_add_distrib dec_hi_def)
  have man: "lshift (and_scalar (to_int32 ps) (push_bit (nat (primary_m_bits c)) 1 - 1))
                    (residual_m_bits c) = map (dec_man p r) ps"
    unfolding assms lshift_def and_scalar_def to_int32_def py_mask nat_int
    by (simp add: o_def dec_man_def)
  show ?thesis
    unfolding decode_low_def Let_def hi man
    by (simp add: bind_err_def view_float32_def tensor_or_same map2_map_map dec_low_elem_def)
qed

lemma decode_same_length:
  assumes "primary_m_bits c = int p" and "residual_m_bits c = int r"
    and "length ps = length rs"
  shows "decode c ps rs = Inr (map2 (dec_elem p r) ps rs)"
  unfolding decode_elems [OF assms(1,2)]
  using assms(3)
  by (simp add: bind_err_def tensor_or_same map2_map_left map2_map_map2 dec_elem_def)

section \<open>Round trip\<close>

text \<open>
  C1. For every instance that construction returns and every sequence of float32 bit
  patterns, \<^verbatim>\<open>encode\<close> returns a pair of streams and \<^verbatim>\<open>decode\<close> of that pair returns the input
  sequence, bit for bit.
\<close>

theorem C1_round_trip:
  assumes "init arg = Inr c"
  shows "\<exists>primary residual.
           encode c values = Inr (primary, residual) \<and> decode c primary residual = Inr values"
proof -
  obtain p r where p: "primary_m_bits c = int p" and r: "residual_m_bits c = int r"
    and s: "p + r = 23"
    using init_split [OF assms] by blast
  have "decode c (map (enc_primary p r) values) (map (enc_residual r) values) = Inr values"
    unfolding decode_same_length [OF p r, of "map (enc_primary p r) values"
        "map (enc_residual r) values", simplified]
    by (simp add: map2_map_map roundtrip_elem [OF s])
  then show ?thesis using encode_elems [OF p r] by simp
qed

theorem C1_round_trip_witness:
  "encode \<lparr>aggression = 1 / 2, m_bits = 23, primary_m_bits = 12, residual_m_bits = 11\<rparr>
     [0x3FC00000, 0xC0300000, 0, 0x42C84000, 0x3DCCCCCD]
     = Inr ([0x7F800, 0x180600, 0, 0x85908, 0x7B999], [0, 0, 0, 0, 0x4CD])
   \<and> decode \<lparr>aggression = 1 / 2, m_bits = 23, primary_m_bits = 12, residual_m_bits = 11\<rparr>
       [0x7F800, 0x180600, 0, 0x85908, 0x7B999] [0, 0, 0, 0, 0x4CD]
     = Inr [0x3FC00000, 0xC0300000, 0, 0x42C84000, 0x3DCCCCCD]"
proof -
  have e: "encode \<lparr>aggression = 1 / 2, m_bits = 23, primary_m_bits = 12, residual_m_bits = 11\<rparr>
     [0x3FC00000, 0xC0300000, 0, 0x42C84000, 0x3DCCCCCD]
     = Inr ([0x7F800, 0x180600, 0, 0x85908, 0x7B999], [0, 0, 0, 0, 0x4CD])"
    by (simp add: encode_def Let_def rshift_def lshift_def and_scalar_def tensor_or_def
          bind_err_def view_int32_def)
  show ?thesis
    using C1_round_trip [OF init_half, of "[0x3FC00000, 0xC0300000, 0, 0x42C84000, 0x3DCCCCCD]"]
    unfolding e by simp
qed

section \<open>Boundary values of the aggression\<close>

lemma enc_primary_all_bits: "enc_primary 23 0 x = x"
  by (rule bit_word_eqI) (simp add: bit_enc_primary)

lemma enc_residual_no_bits: "enc_residual 0 x = 0"
  by (simp add: enc_residual_def)

lemma dec_low_elem_all_bits: "dec_low_elem 23 0 y = y"
  by (rule bit_word_eqI) (simp add: bit_dec_low_elem)

lemma enc_primary_no_mantissa: "enc_primary 0 23 x = drop_bit 23 x"
proof (rule bit_word_eqI)
  fix n assume "n < LENGTH(32)"
  have "bit x (23 + n) \<Longrightarrow> n < 9" by (auto dest: bit_imp_le_length)
  then show "bit (enc_primary 0 23 x) n \<longleftrightarrow> bit (drop_bit 23 x) n"
    by (auto simp add: bit_enc_primary bit_drop_bit_eq add.commute)
qed

lemma enc_residual_mantissa: "enc_residual 23 x = take_bit 23 x"
  by (rule bit_word_eqI) (auto simp add: bit_enc_residual bit_take_bit_iff)

lemma boundary_maps:
  "enc_primary 23 0 = (\<lambda>x. x)" "enc_residual 0 = (\<lambda>x. 0)" "dec_low_elem 23 0 = (\<lambda>y. y)"
  "enc_primary 0 23 = drop_bit 23" "enc_residual 23 = take_bit 23"
  by (rule ext, simp add: enc_primary_all_bits enc_residual_no_bits dec_low_elem_all_bits
        enc_primary_no_mantissa enc_residual_mantissa)+

text \<open>
  C6. At aggression 0.0 the instance has 23 primary and 0 residual bits, \<^verbatim>\<open>encode\<close> returns
  the input patterns themselves as the primary stream and a residual stream of zeros, and
  \<^verbatim>\<open>decode_low\<close> of that primary stream is the input. At aggression 1.0 the instance has 0
  primary and 23 residual bits, and a primary element is the top nine bits of the input
  (sign and exponent), the residual element its 23 mantissa bits.
\<close>

theorem C6_boundary_aggression:
  "init (Some 0) =
     Inr \<lparr>aggression = 0, m_bits = 23, primary_m_bits = 23, residual_m_bits = 0\<rparr>
   \<and> encode \<lparr>aggression = 0, m_bits = 23, primary_m_bits = 23, residual_m_bits = 0\<rparr> values
       = Inr (values, map (\<lambda>x. 0) values)
   \<and> decode_low \<lparr>aggression = 0, m_bits = 23, primary_m_bits = 23, residual_m_bits = 0\<rparr> values
       = Inr values
   \<and> init (Some 1) =
       Inr \<lparr>aggression = 1, m_bits = 23, primary_m_bits = 0, residual_m_bits = 23\<rparr>
   \<and> encode \<lparr>aggression = 1, m_bits = 23, primary_m_bits = 0, residual_m_bits = 23\<rparr> values
       = Inr (map (drop_bit 23) values, map (take_bit 23) values)"
proof -
  let ?c0 = "\<lparr>aggression = 0, m_bits = 23, primary_m_bits = 23, residual_m_bits = 0\<rparr>"
  let ?c1 = "\<lparr>aggression = 1, m_bits = 23, primary_m_bits = 0, residual_m_bits = 23\<rparr>"
  have e0: "encode ?c0 values = Inr (values, map (\<lambda>x. 0) values)"
    using encode_elems [of ?c0 23 0 "values"]
    by (simp add: boundary_maps)
  have l0: "decode_low ?c0 values = Inr values"
    using decode_low_elems [of ?c0 23 0 "values"] by (simp add: boundary_maps)
  have e1: "encode ?c1 values = Inr (map (drop_bit 23) values, map (take_bit 23) values)"
    using encode_elems [of ?c1 0 23 "values"]
    by (simp add: boundary_maps)
  show ?thesis using init_zero init_one e0 l0 e1 by simp
qed

section \<open>Streams of different lengths\<close>





section \<open>Low-precision decoding\<close>

lemma in_range_bits:
  fixes z :: int32
  assumes "0 \<le> sint z" and "sint z < 2 ^ r" and "bit z n"
  shows "n < r"
proof -
  have "n < LENGTH(32)" using assms(3) by (rule bit_imp_le_length)
  then have "bit (sint z) n" using assms(3) by (simp add: bit_sint_iff)
  moreover have "take_bit r (sint z) = sint z"
    using assms(1,2) by (rule take_bit_int_eq_self)
  ultimately have "bit (take_bit r (sint z)) n" by simp
  then show ?thesis by (simp add: bit_take_bit_iff)
qed

lemma dec_elem_eq_low_iff:
  assumes s: "p + r = 23" and "0 \<le> sint z" and "sint z < 2 ^ r"
  shows "dec_elem p r y z = dec_low_elem p r y \<longleftrightarrow> z = 0"
proof
  assume e: "dec_elem p r y z = dec_low_elem p r y"
  show "z = 0"
  proof (rule bit_word_eqI)
    fix n assume "n < LENGTH(32)"
    have "\<not> bit z n"
    proof
      assume b: "bit z n"
      then have n: "n < r" using assms(2,3) by (rule in_range_bits [rotated 2])
      have "bit (dec_elem p r y z) n" unfolding dec_elem_low bit_or_iff using b by simp
      then have "bit (dec_low_elem p r y) n" unfolding e .
      then show False unfolding bit_dec_low_elem [OF s] using n by simp
    qed
    then show "bit z n \<longleftrightarrow> bit (0 :: int32) n" by simp
  qed
next
  assume "z = 0"
  then show "dec_elem p r y z = dec_low_elem p r y" by (simp add: dec_elem_low)
qed

lemma map2_dec_eq_low_iff:
  assumes s: "p + r = 23" and "length ps = length rs"
    and "\<forall>z\<in>set rs. 0 \<le> sint z \<and> sint z < 2 ^ r"
  shows "map2 (dec_elem p r) ps rs = map (dec_low_elem p r) ps \<longleftrightarrow> (\<forall>z\<in>set rs. z = 0)"
  using assms(2,3)
proof (induction ps rs rule: list_induct2)
  case Nil
  then show ?case by simp
next
  case (Cons y ps z rs)
  then show ?case by (simp add: dec_elem_eq_low_iff [OF s])
qed

text \<open>
  C7. For every instance, every primary stream and every residual stream of the same
  length whose values lie in [0, 2^residual_m_bits - 1], \<^verbatim>\<open>decode_low\<close> of the primary
  stream equals \<^verbatim>\<open>decode\<close> of the two streams if and only if every residual value is 0.
\<close>

theorem C7_decode_low_equals_decode_iff_zero_residual:
  assumes "init arg = Inr c"
    and "length residual = length primary"
    and "\<forall>z\<in>set residual. 0 \<le> sint z \<and> sint z < 2 ^ nat (residual_m_bits c)"
  shows "decode_low c primary = decode c primary residual \<longleftrightarrow> (\<forall>z\<in>set residual. z = 0)"
proof -
  obtain p r where p: "primary_m_bits c = int p" and r: "residual_m_bits c = int r"
    and s: "p + r = 23"
    using init_split [OF assms(1)] by blast
  have l: "length primary = length residual" using assms(2) by simp
  have rng: "\<forall>z\<in>set residual. 0 \<le> sint z \<and> sint z < 2 ^ r" using assms(3) r by simp
  have "decode_low c primary = decode c primary residual \<longleftrightarrow>
          map2 (dec_elem p r) primary residual = map (dec_low_elem p r) primary"
    unfolding decode_low_elems [OF p r] decode_same_length [OF p r l] by auto
  then show ?thesis using map2_dec_eq_low_iff [OF s l rng] by simp
qed

theorem C7_decode_low_equals_decode_iff_zero_residual_witness:
  "decode_low \<lparr>aggression = 1 / 2, m_bits = 23, primary_m_bits = 12, residual_m_bits = 11\<rparr>
       [0x7F800, 0x7B999]
     \<noteq> decode \<lparr>aggression = 1 / 2, m_bits = 23, primary_m_bits = 12, residual_m_bits = 11\<rparr>
       [0x7F800, 0x7B999] [0, 0x4CD]
   \<and> decode_low \<lparr>aggression = 1 / 2, m_bits = 23, primary_m_bits = 12, residual_m_bits = 11\<rparr>
       [0x7F800, 0x7B999]
     = decode \<lparr>aggression = 1 / 2, m_bits = 23, primary_m_bits = 12, residual_m_bits = 11\<rparr>
       [0x7F800, 0x7B999] [0, 0]"
  using C7_decode_low_equals_decode_iff_zero_residual
          [OF init_half, of "[0, 0x4CD]" "[0x7F800, 0x7B999]"]
        C7_decode_low_equals_decode_iff_zero_residual
          [OF init_half, of "[0, 0]" "[0x7F800, 0x7B999]"]
  by simp

section \<open>Width of the primary stream\<close>

lemma enc_primary_fits:
  assumes "p + r = 23"
  shows "take_bit (9 + p) (enc_primary p r x) = enc_primary p r x"
  by (rule bit_word_eqI) (auto simp add: bit_take_bit_iff bit_enc_primary [OF assms])

lemma uint_enc_primary:
  assumes "p + r = 23"
  shows "uint (enc_primary p r x) < 2 ^ (9 + p)"
proof -
  have "uint (take_bit (9 + p) (enc_primary p r x)) = take_bit (9 + p) (uint (enc_primary p r x))"
    by (rule unsigned_take_bit_eq)
  then have "uint (enc_primary p r x) = take_bit (9 + p) (uint (enc_primary p r x))"
    unfolding enc_primary_fits [OF assms] .
  moreover have "take_bit (9 + p) (uint (enc_primary p r x)) < 2 ^ (9 + p)"
    by (rule take_bit_int_less_exp)
  ultimately show ?thesis by simp
qed

lemma sint_enc_primary:
  assumes "p + r = 23" and "p < 23"
  shows "sint (enc_primary p r x) = uint (enc_primary p r x)"
proof (rule bit_eqI)
  fix n
  have "\<not> bit (enc_primary p r x) 31"
    unfolding bit_enc_primary [OF assms(1)] using assms(2) by simp
  then show "bit (sint (enc_primary p r x)) n \<longleftrightarrow> bit (uint (enc_primary p r x)) n"
    by (auto simp add: bit_sint_iff bit_uint_iff dest: bit_imp_le_length)
qed

text \<open>
  C8 (as the spec has it: every primary element is a non-negative integer below
  2^(9 + primary_m_bits)) does not hold for the int32 tensor \<^verbatim>\<open>encode\<close> returns: with 23
  primary bits the sign lands in bit 31, and the element of a negative float is a negative
  int32. Below, aggression 0.0 and the input -1.0 (pattern BF800000).
\<close>

theorem C8_primary_width_counterexample:
  "init (Some 0) =
     Inr \<lparr>aggression = 0, m_bits = 23, primary_m_bits = 23, residual_m_bits = 0\<rparr>
   \<and> encode \<lparr>aggression = 0, m_bits = 23, primary_m_bits = 23, residual_m_bits = 0\<rparr>
       [0xBF800000] = Inr ([0xBF800000], [0])
   \<and> sint (0xBF800000 :: int32) = - 1082130432"
  using init_zero
  by (simp add: encode_def Let_def rshift_def lshift_def and_scalar_def tensor_or_def
        bind_err_def view_int32_def)

text \<open>
  C8, amended. For every instance and every input sequence, the 32-bit pattern of each
  primary element, read as an unsigned integer, lies in [0, 2^(9 + primary_m_bits) - 1];
  when primary_m_bits is below 23 the int32 value the tensor holds is that same
  non-negative integer.
\<close>

theorem C8_primary_width:
  assumes "init arg = Inr c"
    and "encode c values = Inr (primary, residual)"
    and "i < length values"
  shows "0 \<le> uint (primary ! i)
       \<and> uint (primary ! i) < 2 ^ (9 + nat (primary_m_bits c))
       \<and> (primary_m_bits c < 23 \<longrightarrow> sint (primary ! i) = uint (primary ! i))"
proof -
  obtain p r where p: "primary_m_bits c = int p" and r: "residual_m_bits c = int r"
    and s: "p + r = 23"
    using init_split [OF assms(1)] by blast
  have "primary = map (enc_primary p r) values"
    using assms(2) unfolding encode_elems [OF p r] by simp
  then have e: "primary ! i = enc_primary p r (values ! i)" using assms(3) by simp
  show ?thesis
    unfolding e p using uint_enc_primary [OF s] sint_enc_primary [OF s] by simp
qed

theorem C8_primary_width_witness:
  "encode \<lparr>aggression = 1 / 2, m_bits = 23, primary_m_bits = 12, residual_m_bits = 11\<rparr>
     [0x3FC00000, 0xC0300000] = Inr ([0x7F800, 0x180600], [0, 0])
   \<and> uint (0x180600 :: int32) < 2 ^ 21 \<and> sint (0x180600 :: int32) = uint (0x180600 :: int32)"
proof -
  have e: "encode \<lparr>aggression = 1 / 2, m_bits = 23, primary_m_bits = 12, residual_m_bits = 11\<rparr>
     [0x3FC00000, 0xC0300000] = Inr ([0x7F800, 0x180600], [0, 0])"
    by (simp add: encode_def Let_def rshift_def lshift_def and_scalar_def tensor_or_def
          bind_err_def view_int32_def)
  have "(1::nat) < length [0x3FC00000, 0xC0300000 :: float32]" by simp
  from C8_primary_width [OF init_half e this] e show ?thesis by simp
qed

section \<open>Bits of a primary element that decoding reads\<close>

lemma dec_hi_low_bits:
  assumes "p + r = 23"
  shows "dec_hi p (take_bit (9 + p) y) = dec_hi p y"
proof (rule bit_word_eqI)
  fix n assume "n < LENGTH(32)"
  then have "n - r < 9 + p" using assms by simp
  then show "bit (dec_hi p (take_bit (9 + p) y)) n \<longleftrightarrow> bit (dec_hi p y) n"
    unfolding bit_dec_hi [OF assms] by (simp add: bit_take_bit_iff)
qed

lemma dec_man_low_bits:
  assumes "p + r = 23"
  shows "dec_man p r (take_bit (9 + p) y) = dec_man p r y"
proof (rule bit_word_eqI)
  fix n assume "n < LENGTH(32)"
  then have "n - r < 9 + p" using assms by simp
  then show "bit (dec_man p r (take_bit (9 + p) y)) n \<longleftrightarrow> bit (dec_man p r y) n"
    unfolding bit_dec_mantissa [OF assms] by (simp add: bit_take_bit_iff)
qed

lemma map_low_bits:
  assumes "\<And>y. f (take_bit k y) = f y"
    and "map (take_bit k) ps = map (take_bit k) ps'"
  shows "map f ps = map f ps'"
proof -
  have "map f qs = map f (map (take_bit k) qs)" for qs
    by (simp add: assms(1))
  then show ?thesis using assms(2) by metis
qed

text \<open>
  C10. \<^verbatim>\<open>decode\<close> and \<^verbatim>\<open>decode_low\<close> read only the low 9 + primary_m_bits bits of a primary
  element: two primary streams that agree on those bits decode to the same result with
  any residual stream, and to the same low-precision result.
\<close>

theorem C10_high_bits_ignored:
  assumes "init arg = Inr c"
    and "map (take_bit (9 + nat (primary_m_bits c))) primary
           = map (take_bit (9 + nat (primary_m_bits c))) primary'"
  shows "decode c primary residual = decode c primary' residual
       \<and> decode_low c primary = decode_low c primary'"
proof -
  obtain p r where p: "primary_m_bits c = int p" and r: "residual_m_bits c = int r"
    and s: "p + r = 23"
    using init_split [OF assms(1)] by blast
  have agree: "map (take_bit (9 + p)) primary = map (take_bit (9 + p)) primary'"
    using assms(2) p by simp
  have hi: "map (dec_hi p) primary = map (dec_hi p) primary'"
    using dec_hi_low_bits [OF s] agree by (rule map_low_bits)
  have man: "map (dec_man p r) primary = map (dec_man p r) primary'"
    using dec_man_low_bits [OF s] agree by (rule map_low_bits)
  have "dec_low_elem p r (take_bit (9 + p) y) = dec_low_elem p r y" for y
    by (simp add: dec_low_elem_def dec_hi_low_bits [OF s] dec_man_low_bits [OF s])
  then have low: "map (dec_low_elem p r) primary = map (dec_low_elem p r) primary'"
    using agree by (rule map_low_bits)
  show ?thesis
    unfolding decode_elems [OF p r] decode_low_elems [OF p r] hi man low by simp
qed

theorem C10_high_bits_ignored_witness:
  "decode \<lparr>aggression = 1 / 2, m_bits = 23, primary_m_bits = 12, residual_m_bits = 11\<rparr>
       [0x7F800, 0x7B999] [0, 0x4CD]
     = decode \<lparr>aggression = 1 / 2, m_bits = 23, primary_m_bits = 12, residual_m_bits = 11\<rparr>
       [0xFFE7F800, 0x27B999] [0, 0x4CD]
   \<and> decode_low \<lparr>aggression = 1 / 2, m_bits = 23, primary_m_bits = 12, residual_m_bits = 11\<rparr>
       [0x7F800, 0x7B999]
     = decode_low \<lparr>aggression = 1 / 2, m_bits = 23, primary_m_bits = 12, residual_m_bits = 11\<rparr>
       [0xFFE7F800, 0x27B999]"
proof -
  have "map (take_bit (9 + nat 12)) [0x7F800, 0x7B999 :: int32]
          = map (take_bit (9 + nat 12)) [0xFFE7F800, 0x27B999 :: int32]"
    by (simp add: take_bit_eq_mask mask_eq_exp_minus_1)
  then show ?thesis
    using C10_high_bits_ignored [OF init_half, of "[0x7F800, 0x7B999]" "[0xFFE7F800, 0x27B999]"
            "[0, 0x4CD]"]
    by simp
qed

end
